theory Spec2Isabelle
  imports Main
begin

section \<open>Tiny shell (tsh): the job table and the commands that use it\<close>

text \<open>
  A shallow embedding of \<^verbatim>\<open>Solu_tsh.c\<close>. The C \<^verbatim>\<open>int\<close> and \<^verbatim>\<open>pid_t\<close> values are
  modelled as \<^typ>\<open>int\<close>: the only arithmetic on them is the job-id counter, which stays
  small, and \<^verbatim>\<open>atoi\<close>, whose truncation to 32 bits is written out. The global array
  \<^verbatim>\<open>jobs[MAXJOBS]\<close> is the list of its slots in index order, and every loop
  \<^verbatim>\<open>for (i = 0; i < MAXJOBS; i++)\<close> is a recursion over that list. Standard output is the
  string of everything printed so far.
\<close>

subsection \<open>Constants and data\<close>

definition MAXJOBS :: nat where
  "MAXJOBS = 16"

abbreviation (input) UNDEF :: int where "UNDEF \<equiv> 0"
abbreviation (input) FG :: int where "FG \<equiv> 1"
abbreviation (input) BG :: int where "BG \<equiv> 2"
abbreviation (input) ST :: int where "ST \<equiv> 3"

abbreviation (input) newline :: char where "newline \<equiv> CHR 0x0A"

text \<open>From \<^verbatim>\<open><signal.h>\<close> and \<^verbatim>\<open><limits.h>\<close> on x86-64 Linux: not part of the source file.\<close>

abbreviation (input) SIGCONT :: int where "SIGCONT \<equiv> 18"

definition LONG_MAX :: int where
  "LONG_MAX = 9223372036854775807"

definition LONG_MIN :: int where
  "LONG_MIN = - 9223372036854775808"

record job_t =
  pid :: int
  jid :: int
  state :: int
  cmdline :: string

text \<open>
  The globals of the program that the modelled functions read or write, together with the
  two effects they have on the outside: the text written to stdout (\<open>out\<close>) and the calls of
  \<^verbatim>\<open>kill\<close> (\<open>sent\<close>, pairs of the pid argument and the signal number).
\<close>

record shell =
  jobs :: "job_t list"
  nextjid :: int
  verbose :: bool
  out :: string
  sent :: "(int \<times> int) list"

subsection \<open>printf's \<^verbatim>\<open>%d\<close>\<close>

definition digit_char :: "nat \<Rightarrow> char" where
  "digit_char d = ''0123456789'' ! d"

fun show_nat :: "nat \<Rightarrow> string" where
  "show_nat n = (if n < 10 then [digit_char n] else show_nat (n div 10) @ [digit_char (n mod 10)])"

definition show_int :: "int \<Rightarrow> string" where
  "show_int i = (if i < 0 then CHR ''-'' # show_nat (nat (- i)) else show_nat (nat i))"

subsection \<open>Job table helpers\<close>

text \<open>The scan \<^verbatim>\<open>for (i = 0; i < MAXJOBS; i++) if (P(jobs[i])) return i\<close>.\<close>

fun scan :: "(job_t \<Rightarrow> bool) \<Rightarrow> job_t list \<Rightarrow> nat option" where
  "scan P [] = None"
| "scan P (j # js) = (if P j then Some 0 else map_option Suc (scan P js))"

definition clearjob :: "job_t \<Rightarrow> job_t" where
  "clearjob j = j\<lparr>pid := 0, jid := 0, state := UNDEF, cmdline := []\<rparr>"

definition initjobs :: "job_t list \<Rightarrow> job_t list" where
  "initjobs js = map clearjob js"

definition maxjid :: "job_t list \<Rightarrow> int" where
  "maxjid js = foldl (\<lambda>m j. if jid j > m then jid j else m) 0 js"

text \<open>
  \<^verbatim>\<open>addjob\<close> returns 0 for \<open>pid < 1\<close>; otherwise it fills the first slot whose pid is 0 and
  advances the counter, resetting it to 1 once it is above \<^verbatim>\<open>MAXJOBS\<close>. With no free slot
  it prints a message and returns 0.
\<close>

definition addjob :: "shell \<Rightarrow> int \<Rightarrow> int \<Rightarrow> string \<Rightarrow> shell \<times> int" where
  "addjob s p st cmd =
     (if p < 1 then (s, 0)
      else case scan (\<lambda>j. pid j = 0) (jobs s) of
        Some i \<Rightarrow>
          (let j = \<lparr>pid = p, jid = nextjid s, state = st, cmdline = cmd\<rparr>;
               n = nextjid s + 1;
               s1 = s\<lparr>jobs := (jobs s)[i := j],
                      nextjid := (if n > int MAXJOBS then 1 else n)\<rparr>
           in (if verbose s
               then s1\<lparr>out := out s1 @ ''Added job ['' @ show_int (jid j) @ ''] ''
                                @ show_int (pid j) @ '' '' @ cmdline j @ [newline]\<rparr>
               else s1, 1))
      | None \<Rightarrow> (s\<lparr>out := out s @ ''Tried to create too many jobs'' @ [newline]\<rparr>, 0))"

definition deletejob :: "shell \<Rightarrow> int \<Rightarrow> shell \<times> int" where
  "deletejob s p =
     (if p < 1 then (s, 0)
      else case scan (\<lambda>j. pid j = p) (jobs s) of
        Some i \<Rightarrow>
          (let js = (jobs s)[i := clearjob (jobs s ! i)]
           in (s\<lparr>jobs := js, nextjid := maxjid js + 1\<rparr>, 1))
      | None \<Rightarrow> (s, 0))"

text \<open>\<^verbatim>\<open>getjobpid\<close> and \<^verbatim>\<open>getjobjid\<close> return a pointer to a slot: here its index.\<close>

definition getjobpid :: "job_t list \<Rightarrow> int \<Rightarrow> nat option" where
  "getjobpid js p = (if p < 1 then None else scan (\<lambda>j. pid j = p) js)"

definition getjobjid :: "job_t list \<Rightarrow> int \<Rightarrow> nat option" where
  "getjobjid js i = (if i < 1 then None else scan (\<lambda>j. jid j = i) js)"

definition pid2jid :: "job_t list \<Rightarrow> int \<Rightarrow> int" where
  "pid2jid js p =
     (if p < 1 then 0
      else case scan (\<lambda>j. pid j = p) js of Some i \<Rightarrow> jid (js ! i) | None \<Rightarrow> 0)"

subsection \<open>The shell at start-up and sequences of table operations\<close>

text \<open>
  The state of \<^verbatim>\<open>main\<close> after \<^verbatim>\<open>initjobs(jobs)\<close>: the array of \<^verbatim>\<open>MAXJOBS\<close> zero-initialised
  slots, cleared; \<^verbatim>\<open>nextjid = 1\<close>; \<open>v\<close> is the \<^verbatim>\<open>-v\<close> flag.
\<close>

definition init_shell :: "bool \<Rightarrow> shell" where
  "init_shell v =
     \<lparr>jobs = initjobs (replicate MAXJOBS \<lparr>pid = 0, jid = 0, state = 0, cmdline = []\<rparr>),
      nextjid = 1, verbose = v, out = [], sent = []\<rparr>"

datatype jop = Add int int string | Del int

fun apply_jop :: "shell \<Rightarrow> jop \<Rightarrow> shell" where
  "apply_jop s (Add p st cmd) = fst (addjob s p st cmd)"
| "apply_jop s (Del p) = fst (deletejob s p)"

definition run_jops :: "shell \<Rightarrow> jop list \<Rightarrow> shell" where
  "run_jops s ops = foldl apply_jop s ops"

text \<open>The two properties of a table that the invariants are about.\<close>

definition distinct_pids :: "job_t list \<Rightarrow> bool" where
  "distinct_pids js = distinct (filter (\<lambda>p. p \<noteq> 0) (map pid js))"

definition one_fg :: "job_t list \<Rightarrow> bool" where
  "one_fg js = (length (filter (\<lambda>j. state j = FG) js) \<le> 1)"

text \<open>
  A sequence of operations in which every add uses a pid that no slot holds, and adds a
  foreground job only when no slot is in the foreground: what the launcher guarantees
  (the kernel hands out fresh pids, and the shell waits for a foreground job).
\<close>

fun fresh_adds :: "shell \<Rightarrow> jop list \<Rightarrow> bool" where
  "fresh_adds s [] = True"
| "fresh_adds s (Add p st cmd # ops) =
     (p \<notin> set (map pid (jobs s)) \<and> (st = FG \<longrightarrow> FG \<notin> set (map state (jobs s)))
        \<and> fresh_adds (apply_jop s (Add p st cmd)) ops)"
| "fresh_adds s (Del p # ops) = fresh_adds (apply_jop s (Del p)) ops"

subsection \<open>Outcomes and the operating system\<close>

text \<open>
  A function of the shell either returns, or stops the process: \<^verbatim>\<open>exit(n)\<close> (with the state
  at that moment, for what was printed), a successful \<^verbatim>\<open>execvp\<close>, or a dereferenced null
  pointer.
\<close>

datatype abort = Exit int shell | Exec "string list" | Segfault

text \<open>The decoded status of \<^verbatim>\<open>waitpid\<close>: the three macros the handler tests, with
  \<^verbatim>\<open>WTERMSIG\<close>, \<^verbatim>\<open>WEXITSTATUS\<close> and \<^verbatim>\<open>WSTOPSIG\<close>.\<close>

datatype wstatus = WSIGNALED int | WEXITED int | WSTOPPED int

text \<open>
  What the operating system answers: the value \<^verbatim>\<open>fork\<close> returns in this process, the text
  of \<^verbatim>\<open>strerror(errno)\<close> after a failed call, whether \<^verbatim>\<open>execvp\<close> finds the program, and
  the asynchronous part. \<^verbatim>\<open>SIGCHLD\<close> is blocked only in \<^verbatim>\<open>eval\<close>, from before \<^verbatim>\<open>fork\<close> until
  after \<^verbatim>\<open>addjob\<close>; everywhere else the handler can interrupt the shell between any two
  statements. The places of a command where that matters are its interruption points: the
  points between two accesses of the job table in \<^verbatim>\<open>do_bgfg\<close>, in \<^verbatim>\<open>waitfg\<close> and at the end of
  \<^verbatim>\<open>eval\<close>, numbered from 0 in the order in which the command passes them. \<open>reaped n\<close> holds
  the children that \<^verbatim>\<open>waitpid\<close> hands to the handler at point \<open>n\<close> (nothing, if no signal
  arrives there; several runs of the handler at one point are one list). An interruption
  inside one scan of the table has the effect of one just before or just after the scan,
  since the handler only clears slots and sets their state. The calls of \<^verbatim>\<open>sigprocmask\<close>
  and \<^verbatim>\<open>setpgrp\<close> are taken to succeed.
\<close>

record os_env =
  fork_ret :: int
  errno_text :: string
  exec_ok :: bool
  reaped :: "nat \<Rightarrow> (int \<times> wstatus) list"

definition kill :: "shell \<Rightarrow> int \<Rightarrow> int \<Rightarrow> shell" where
  "kill s p sig = s\<lparr>sent := sent s @ [(p, sig)]\<rparr>"

definition printf :: "shell \<Rightarrow> string \<Rightarrow> shell" where
  "printf s txt = s\<lparr>out := out s @ txt\<rparr>"

definition set_state :: "shell \<Rightarrow> nat \<Rightarrow> int \<Rightarrow> shell" where
  "set_state s i st = s\<lparr>jobs := (jobs s)[i := (jobs s ! i)\<lparr>state := st\<rparr>]\<rparr>"

text \<open>Sequencing: a step that stopped the process ends the command.\<close>

definition after :: "abort + shell \<Rightarrow> (shell \<Rightarrow> (abort + 'a) option) \<Rightarrow> (abort + 'a) option" where
  "after r f = (case r of Inl a \<Rightarrow> Some (Inl a) | Inr s \<Rightarrow> f s)"

subsection \<open>The \<^verbatim>\<open>SIGCHLD\<close> handler\<close>

text \<open>
  One round of the handler's loop, for a child \<open>p\<close> that \<^verbatim>\<open>waitpid\<close> returned with its
  status. The signal numbers in the two messages are the literals of the source.
\<close>

fun reap :: "shell \<Rightarrow> int \<times> wstatus \<Rightarrow> abort + shell" where
  "reap s (p, WSIGNALED n) =
     (let s1 = printf s (''Job ['' @ show_int (pid2jid (jobs s) p) @ ''] ('' @ show_int p
                          @ '') terminated by signal 2'')
      in case getjobpid (jobs s1) p of
           None \<Rightarrow> Inl Segfault
         | Some i \<Rightarrow> Inr (fst (deletejob (set_state s1 i UNDEF) p)))"
| "reap s (p, WEXITED n) =
     (case getjobpid (jobs s) p of
        None \<Rightarrow> Inl Segfault
      | Some i \<Rightarrow> Inr (fst (deletejob (set_state s i UNDEF) p)))"
| "reap s (p, WSTOPPED n) =
     (let s1 = printf s (''Job ['' @ show_int (pid2jid (jobs s) p) @ ''] ('' @ show_int p
                          @ '') stopped by signal 20'' @ [newline])
      in case getjobpid (jobs s1) p of
           None \<Rightarrow> Inl Segfault
         | Some i \<Rightarrow> Inr (set_state s1 i ST))"

text \<open>
  \<^verbatim>\<open>while ((pid = waitpid(-1, &stat, WNOHANG | WUNTRACED)) > 0)\<close>: the list holds what the
  successive calls return; the loop ends at the first pid that is not positive, or when
  nothing is left to reap.
\<close>

fun sigchld_handler :: "shell \<Rightarrow> (int \<times> wstatus) list \<Rightarrow> abort + shell" where
  "sigchld_handler s [] = Inr s"
| "sigchld_handler s ((p, w) # es) =
     (if p > 0
      then (case reap s (p, w) of Inl a \<Rightarrow> Inl a | Inr s' \<Rightarrow> sigchld_handler s' es)
      else Inr s)"

text \<open>The handler at interruption point \<open>n\<close> of the command.\<close>

definition deliver :: "os_env \<Rightarrow> nat \<Rightarrow> shell \<Rightarrow> abort + shell" where
  "deliver env n s = sigchld_handler s (reaped env n)"

subsection \<open>Waiting for the foreground job\<close>

text \<open>
  \<^verbatim>\<open>while (fgprocess->state == 1) sleep(1);\<close> on the slot \<open>i\<close> that \<^verbatim>\<open>getjobpid\<close> found.
  Nothing in the loop changes the table: only the handler does, before the first test
  and during each sleep, the interruption points from \<open>n\<close> on. The loop need not end, so
  the result is an option and \<open>None\<close> means that it never returns.
\<close>

partial_function (option) waitfg_loop ::
    "os_env \<Rightarrow> nat \<Rightarrow> nat \<Rightarrow> shell \<Rightarrow> (abort + shell) option" where
  "waitfg_loop env i n s =
     (case deliver env n s of
        Inl a \<Rightarrow> Some (Inl a)
      | Inr s1 \<Rightarrow>
          if state (jobs s1 ! i) = 1 then waitfg_loop env i (Suc n) s1 else Some (Inr s1))"

declare waitfg_loop.simps [code]

text \<open>
  \<^verbatim>\<open>waitfg\<close>, entered at interruption point \<open>n\<close>: the handler can run before
  \<^verbatim>\<open>getjobpid\<close> looks the pid up.
\<close>

definition waitfg :: "os_env \<Rightarrow> nat \<Rightarrow> shell \<Rightarrow> int \<Rightarrow> (abort + shell) option" where
  "waitfg env n s p =
     after (deliver env n s) (\<lambda>s1.
       case getjobpid (jobs s1) p of
         None \<Rightarrow> Some (Inr s1)
       | Some i \<Rightarrow> waitfg_loop env i (Suc n) s1)"

subsection \<open>The C library's \<^verbatim>\<open>atoi\<close>\<close>

text \<open>
  \<^verbatim>\<open>atoi\<close> is not part of the source file. In the C library of Linux it is
  \<^verbatim>\<open>(int) strtol(nptr, NULL, 10)\<close>: \<^verbatim>\<open>strtol\<close> skips white space, reads an optional sign and
  then decimal digits up to the first other character, and answers \<^verbatim>\<open>LONG_MIN\<close> or
  \<^verbatim>\<open>LONG_MAX\<close> when the value is outside the 64 bits of a \<^verbatim>\<open>long\<close>; the conversion to
  \<^verbatim>\<open>int\<close> keeps the low 32 bits.
\<close>

definition isspace :: "char \<Rightarrow> bool" where
  "isspace c \<longleftrightarrow> c \<in> set [CHR '' '', CHR 0x09, CHR 0x0A, CHR 0x0B, CHR 0x0C, CHR 0x0D]"

definition isdigit :: "char \<Rightarrow> bool" where
  "isdigit c \<longleftrightarrow> c \<in> set ''0123456789''"

definition digit_val :: "char \<Rightarrow> int" where
  "digit_val c = int (of_char c) - 48"

fun atoi_digits :: "int \<Rightarrow> string \<Rightarrow> int" where
  "atoi_digits acc [] = acc"
| "atoi_digits acc (c # cs) =
     (if isdigit c then atoi_digits (acc * 10 + digit_val c) cs else acc)"

text \<open>The number that the text denotes, before any bound.\<close>

definition atoi_value :: "string \<Rightarrow> int" where
  "atoi_value str =
     (case dropWhile isspace str of
        [] \<Rightarrow> 0
      | c # cs \<Rightarrow>
          if c = CHR ''-'' then - atoi_digits 0 cs
          else if c = CHR ''+'' then atoi_digits 0 cs
          else atoi_digits 0 (c # cs))"

definition strtol :: "string \<Rightarrow> int" where
  "strtol str = max LONG_MIN (min LONG_MAX (atoi_value str))"

definition to_int :: "int \<Rightarrow> int" where
  "to_int v = (v + 2147483648) mod 4294967296 - 2147483648"

definition atoi :: "string \<Rightarrow> int" where
  "atoi str = to_int (strtol str)"

subsection \<open>The built-in commands\<close>

text \<open>\<^verbatim>\<open>while (result > 0) { result = result / 10; count++; }\<close>\<close>

function count_digits :: "int \<Rightarrow> int \<Rightarrow> int" where
  "count_digits result count =
     (if result > 0 then count_digits (result div 10) (count + 1) else count)"
  by pat_completeness auto
termination
  by (relation "measure (\<lambda>(result, count). nat result)") auto

declare count_digits.simps [simp del]

text \<open>
  The check of the argument of \<^verbatim>\<open>bg\<close> and \<^verbatim>\<open>fg\<close>, the start of the \<^verbatim>\<open>else\<close> block of
  \<^verbatim>\<open>do_bgfg\<close>: a leading \<^verbatim>\<open>%\<close> is overwritten with \<^verbatim>\<open>0\<close> and sets \<open>flag\<close>; the argument
  passes when the number of decimal digits of \<^verbatim>\<open>atoi\<close>'s value is the length that is left.
  The result is whether the argument passed, with \<open>flag\<close> and \<open>result\<close>.
\<close>

definition bgfg_arg :: "string \<Rightarrow> bool \<times> int \<times> int" where
  "bgfg_arg a =
     (let l = int (length a);
          pct = (a \<noteq> [] \<and> hd a = CHR ''%'');
          a' = (if pct then CHR ''0'' # tl a else a);
          l' = (if pct then l - 1 else l);
          flag = (if pct then 1 else 0);
          result = atoi a'
      in (count_digits result 0 = l', flag, result))"

text \<open>
  The three-way \<^verbatim>\<open>if\<close> on the job's state that both branches of \<^verbatim>\<open>do_bgfg\<close> repeat, for
  the job in slot \<open>i\<close> with process id \<open>p\<close>, from interruption point \<open>n\<close> on. Each test reads
  the state of the slot anew; the handler can run before each test, between a test and
  the assignment that follows it, between the assignment and \<^verbatim>\<open>kill\<close>, and before
  \<^verbatim>\<open>waitfg\<close> looks the pid up.
\<close>

definition bgfg_move :: "os_env \<Rightarrow> nat \<Rightarrow> shell \<Rightarrow> string \<Rightarrow> nat \<Rightarrow> int \<Rightarrow> (abort + shell) option" where
  "bgfg_move env n s cmd i p =
     after (deliver env n s) (\<lambda>s1.
       if state (jobs s1 ! i) = ST \<and> cmd = ''bg''
       then after (deliver env (n + 1) s1) (\<lambda>s2.
              after (deliver env (n + 2) (set_state s2 i BG)) (\<lambda>s3.
                Some (Inr (kill s3 (- p) SIGCONT))))
       else after (deliver env (n + 1) s1) (\<lambda>s2.
         if state (jobs s2 ! i) = ST \<and> cmd = ''fg''
         then after (deliver env (n + 2) s2) (\<lambda>s3.
                after (deliver env (n + 3) (set_state s3 i FG)) (\<lambda>s4.
                  waitfg env (n + 4) (kill s4 (- p) SIGCONT) p))
         else after (deliver env (n + 2) s2) (\<lambda>s3.
           if state (jobs s3 ! i) = BG \<and> cmd = ''fg''
           then after (deliver env (n + 3) s3) (\<lambda>s4.
                  waitfg env (n + 4) (set_state s4 i FG) p)
           else Some (Inr s3))))"

text \<open>The line that the pid branch prints about the job it found in slot \<open>i\<close>.\<close>

definition job_found_line :: "job_t list \<Rightarrow> int \<Rightarrow> nat \<Rightarrow> string" where
  "job_found_line js result i =
     ''JOB ['' @ show_int (pid2jid js result) @ ''] ('' @ show_int result @ '') ''
       @ show_int (state (js ! i)) @ [newline]"

text \<open>
  \<^verbatim>\<open>do_bgfg\<close>. Interruption point 0 lies between the two lookups and the first use of the
  slot they found (the \<^verbatim>\<open>printf\<close> of the pid branch, the read of \<^verbatim>\<open>temp1->pid\<close> of the jid
  branch); the tests follow from point 1.
\<close>

definition do_bgfg :: "os_env \<Rightarrow> shell \<Rightarrow> string list \<Rightarrow> (abort + shell) option" where
  "do_bgfg env s argv =
     (case argv of
        [] \<Rightarrow> Some (Inl Segfault)
      | cmd # args \<Rightarrow>
          if cmd = ''fg'' \<or> cmd = ''bg''
          then (case args of
                  [] \<Rightarrow> Some (Inr (printf s
                          (cmd @ '': command must be a PID or %jobid argument'' @ [newline])))
                | a # _ \<Rightarrow>
                    (case bgfg_arg a of
                       (ok, flag, result) \<Rightarrow>
                         if \<not> ok
                         then Some (Inr (printf s
                                (cmd @ '': argument must be PID or %jobid'' @ [newline])))
                         else if flag = 0
                         then (case getjobpid (jobs s) result of
                                 Some i \<Rightarrow>
                                   after (deliver env 0 s) (\<lambda>s0.
                                     bgfg_move env 1
                                       (printf s0 (job_found_line (jobs s0) result i))
                                       cmd i result)
                               | None \<Rightarrow> Some (Inr (printf s
                                   (show_int result @ '' : No such process'' @ [newline] @ '' ''))))
                         else (case getjobjid (jobs s) result of
                                 Some i \<Rightarrow>
                                   after (deliver env 0 s) (\<lambda>s0.
                                     bgfg_move env 1 s0 cmd i (pid (jobs s0 ! i)))
                               | None \<Rightarrow> Some (Inr (printf s
                                   (''%'' @ show_int result @ '' : No such Job'' @ [newline] @ '' ''))))))
          else Some (Inr s))"

definition job_line :: "nat \<Rightarrow> job_t \<Rightarrow> string" where
  "job_line i j =
     (if pid j \<noteq> 0
      then ''['' @ show_int (jid j) @ ''] ('' @ show_int (pid j) @ '') ''
           @ (if state j = BG then ''Running ''
              else if state j = FG then ''Foreground ''
              else if state j = ST then ''Stopped ''
              else ''listjobs: Internal error: job['' @ show_int (int i) @ ''].state=''
                   @ show_int (state j) @ '' '')
           @ cmdline j
      else [])"

definition listjobs :: "shell \<Rightarrow> shell" where
  "listjobs s = printf s (concat (map (\<lambda>i. job_line i (jobs s ! i)) [0..<length (jobs s)]))"

text \<open>
  \<^verbatim>\<open>builtin_cmd\<close> returns 1 for a built-in command and 0 otherwise; \<^verbatim>\<open>quit\<close> is a built-in
  only when no argument follows it.
\<close>

definition builtin_cmd :: "os_env \<Rightarrow> shell \<Rightarrow> string list \<Rightarrow> (abort + shell \<times> int) option" where
  "builtin_cmd env s argv =
     (case argv of
        [] \<Rightarrow> Some (Inl Segfault)
      | cmd # args \<Rightarrow>
          if cmd = ''quit'' \<and> args = []
          then (case scan (\<lambda>j. state j = 3) (jobs s) of
                  Some i \<Rightarrow> Some (Inr (printf s (''there are stopped jobs'' @ [newline]), 1))
                | None \<Rightarrow> Some (Inl (Exit 0 s)))
          else if cmd = ''jobs''
          then Some (Inr (listjobs s, 1))
          else if cmd = ''fg'' \<or> cmd = ''bg''
          then (case do_bgfg env s argv of
                  None \<Rightarrow> None
                | Some (Inl a) \<Rightarrow> Some (Inl a)
                | Some (Inr s') \<Rightarrow> Some (Inr (s', 1)))
          else Some (Inr (s, 0)))"

subsection \<open>Evaluating a command line\<close>




subsection \<open>An operating system for the examples\<close>

text \<open>\<^verbatim>\<open>fork\<close> answers in the child, \<^verbatim>\<open>execvp\<close> fails and no signal arrives.\<close>

definition calm_env :: os_env where
  "calm_env = \<lparr>fork_ret = 0, errno_text = [], exec_ok = False, reaped = (\<lambda>n. [])\<rparr>"

subsection \<open>Invariants of the tables that add and delete reach\<close>

text \<open>A cleared slot, as \<^verbatim>\<open>clearjob\<close> leaves it.\<close>

definition empty_job :: job_t where
  "empty_job = \<lparr>pid = 0, jid = 0, state = UNDEF, cmdline = []\<rparr>"

text \<open>Every slot whose pid is 0 is a cleared slot.\<close>

definition cleared_slots :: "job_t list \<Rightarrow> bool" where
  "cleared_slots js = (\<forall>j\<in>set js. pid j = 0 \<longrightarrow> j = empty_job)"

text \<open>
  While the largest job id in the table is below \<^verbatim>\<open>MAXJOBS\<close>, the counter is one above it.
\<close>

definition counter_inv :: "shell \<Rightarrow> bool" where
  "counter_inv s \<longleftrightarrow> cleared_slots (jobs s)
     \<and> (maxjid (jobs s) < int MAXJOBS \<longrightarrow> nextjid s = maxjid (jobs s) + 1)"


section \<open>Properties of the job table\<close>

subsection \<open>Scans, \<^verbatim>\<open>addjob\<close> and \<^verbatim>\<open>deletejob\<close> by cases\<close>

lemma scan_Some_iff:
  "scan P js = Some i \<longleftrightarrow> i < length js \<and> P (js ! i) \<and> (\<forall>k<i. \<not> P (js ! k))"
proof (induction js arbitrary: i)
  case Nil
  then show ?case by simp
next
  case (Cons j js)
  show ?case
  proof (cases "P j")
    case True
    then show ?thesis by (cases i) auto
  next
    case False
    show ?thesis
    proof (cases i)
      case 0
      with False show ?thesis by auto
    next
      case (Suc n)
      with False Cons.IH [of n] show ?thesis
        by (auto simp: less_Suc_eq_0_disj)
    qed
  qed
qed

lemma scan_None_iff: "scan P js = None \<longleftrightarrow> (\<forall>j\<in>set js. \<not> P j)"
  by (induction js) auto

lemma addjob_cases:
  obtains (bad_pid) "p < 1" "addjob s p st c = (s, 0)"
  | (full) "1 \<le> p" "\<forall>j\<in>set (jobs s). pid j \<noteq> 0"
      "addjob s p st c = (s\<lparr>out := out s @ ''Tried to create too many jobs'' @ [newline]\<rparr>, 0)"
  | (added) i s' where "1 \<le> p" "scan (\<lambda>j. pid j = 0) (jobs s) = Some i"
      "addjob s p st c = (s', 1)"
      "jobs s' = (jobs s)[i := \<lparr>pid = p, jid = nextjid s, state = st, cmdline = c\<rparr>]"
      "nextjid s' = (if nextjid s + 1 > int MAXJOBS then 1 else nextjid s + 1)"
proof (cases "p < 1")
  case True
  then show ?thesis using bad_pid by (simp add: addjob_def)
next
  case False
  show ?thesis
  proof (cases "scan (\<lambda>j. pid j = 0) (jobs s)")
    case None
    with False full show ?thesis by (simp add: addjob_def scan_None_iff)
  next
    case (Some i)
    with False added [of i] show ?thesis by (simp add: addjob_def Let_def)
  qed
qed

lemma deletejob_cases:
  obtains (absent) "deletejob s p = (s, 0)" "p < 1 \<or> scan (\<lambda>j. pid j = p) (jobs s) = None"
  | (deleted) i js where "1 \<le> p" "scan (\<lambda>j. pid j = p) (jobs s) = Some i"
      "js = (jobs s)[i := clearjob (jobs s ! i)]"
      "deletejob s p = (s\<lparr>jobs := js, nextjid := maxjid js + 1\<rparr>, 1)"
proof (cases "p < 1")
  case True
  then show ?thesis using absent by (simp add: deletejob_def)
next
  case False
  show ?thesis
  proof (cases "scan (\<lambda>j. pid j = p) (jobs s)")
    case None
    with False absent show ?thesis by (simp add: deletejob_def)
  next
    case (Some i)
    with False deleted [of i] show ?thesis by (simp add: deletejob_def Let_def)
  qed
qed

lemma clearjob_empty: "clearjob (j::job_t) = empty_job"
  by (simp add: clearjob_def empty_job_def)

lemma length_filter_update:
  "i < length js \<Longrightarrow>
     length (filter P (js[i := x])) + (if P (js ! i) then 1 else 0)
       = length (filter P js) + (if P x then 1 else 0)"
proof (induction js arbitrary: i)
  case Nil
  then show ?case by simp
next
  case (Cons j js)
  then show ?case by (cases i) auto
qed

lemma one_fg_update_other:
  assumes "one_fg js" "state x \<noteq> FG"
  shows "one_fg (js[i := x])"
proof (cases "i < length js")
  case True
  from length_filter_update [OF True, of "\<lambda>j. state j = FG" x] assms
  show ?thesis by (auto simp: one_fg_def split: if_splits)
next
  case False
  then have "js[i := x] = js" by (simp add: list_update_beyond)
  with assms show ?thesis by simp
qed

lemma one_fg_update_first:
  assumes "FG \<notin> set (map state js)"
  shows "one_fg (js[i := x])"
proof (cases "i < length js")
  case True
  from assms have "filter (\<lambda>j. state j = FG) js = []"
    by (auto simp: filter_empty_conv)
  with length_filter_update [OF True, of "\<lambda>j. state j = FG" x]
  show ?thesis by (auto simp: one_fg_def split: if_splits)
next
  case False
  with assms have "filter (\<lambda>j. state j = FG) js = []"
    by (auto simp: filter_empty_conv)
  moreover from False have "js[i := x] = js" by (simp add: list_update_beyond)
  ultimately show ?thesis by (simp add: one_fg_def)
qed

lemma pids_update_subset:
  "set (filter (\<lambda>p. p \<noteq> 0) (map pid (js[i := x]))) \<subseteq> insert (pid x) (set (filter (\<lambda>p. p \<noteq> 0) (map pid js)))"
  using set_update_subset_insert [of js i x] by auto

lemma distinct_pids_update_fresh:
  assumes "distinct_pids js" "pid x \<notin> set (map pid js)"
  shows "distinct_pids (js[i := x])"
  using assms
proof (induction js arbitrary: i)
  case Nil
  then show ?case by simp
next
  case (Cons j js)
  show ?case
  proof (cases i)
    case 0
    with Cons.prems show ?thesis by (auto simp: distinct_pids_def split: if_splits)
  next
    case (Suc n)
    from Cons.prems have "distinct_pids js" "pid x \<notin> set (map pid js)"
      by (auto simp: distinct_pids_def split: if_splits)
    then have ih: "distinct_pids (js[n := x])" by (rule Cons.IH)
    have "pid j \<noteq> 0 \<Longrightarrow> pid j \<notin> set (filter (\<lambda>p. p \<noteq> 0) (map pid (js[n := x])))"
    proof
      assume nz: "pid j \<noteq> 0" and "pid j \<in> set (filter (\<lambda>p. p \<noteq> 0) (map pid (js[n := x])))"
      with pids_update_subset [of js n x]
      have "pid j = pid x \<or> pid j \<in> set (filter (\<lambda>p. p \<noteq> 0) (map pid js))" by auto
      with Cons.prems nz show False by (auto simp: distinct_pids_def)
    qed
    with ih Suc show ?thesis by (auto simp: distinct_pids_def)
  qed
qed

lemma distinct_pids_update_clear:
  assumes "distinct_pids js" "pid x = 0"
  shows "distinct_pids (js[i := x])"
  using assms
proof (induction js arbitrary: i)
  case Nil
  then show ?case by simp
next
  case (Cons j js)
  show ?case
  proof (cases i)
    case 0
    with Cons.prems show ?thesis by (auto simp: distinct_pids_def split: if_splits)
  next
    case (Suc n)
    from Cons.prems have "distinct_pids js"
      by (auto simp: distinct_pids_def split: if_splits)
    then have ih: "distinct_pids (js[n := x])" using Cons.prems(2) by (rule Cons.IH)
    have "pid j \<noteq> 0 \<Longrightarrow> pid j \<notin> set (filter (\<lambda>p. p \<noteq> 0) (map pid (js[n := x])))"
    proof
      assume nz: "pid j \<noteq> 0" and "pid j \<in> set (filter (\<lambda>p. p \<noteq> 0) (map pid (js[n := x])))"
      with pids_update_subset [of js n x] Cons.prems(2)
      have "pid j \<in> set (filter (\<lambda>p. p \<noteq> 0) (map pid js))" by auto
      with Cons.prems nz show False by (auto simp: distinct_pids_def)
    qed
    with ih Suc show ?thesis by (auto simp: distinct_pids_def)
  qed
qed

lemma table_inv_step:
  assumes inv: "distinct_pids (jobs s)" "one_fg (jobs s)"
    and ok: "fresh_adds s (x # ops)"
  shows "distinct_pids (jobs (apply_jop s x)) \<and> one_fg (jobs (apply_jop s x))"
proof (cases x)
  case (Add p st c)
  from ok Add have fresh: "p \<notin> set (map pid (jobs s))"
    and fg: "st = FG \<longrightarrow> FG \<notin> set (map state (jobs s))" by simp_all
  show ?thesis
  proof (cases rule: addjob_cases [of p s st c])
    case bad_pid
    with inv Add show ?thesis by simp
  next
    case full
    with inv Add show ?thesis by simp
  next
    case (added i s')
    let ?j = "\<lparr>pid = p, jid = nextjid s, state = st, cmdline = c\<rparr>"
    have "distinct_pids ((jobs s)[i := ?j])"
      using inv(1) fresh by (intro distinct_pids_update_fresh) simp_all
    moreover have "one_fg ((jobs s)[i := ?j])"
    proof (cases "st = FG")
      case True
      with fg show ?thesis by (intro one_fg_update_first) simp
    next
      case False
      with inv(2) show ?thesis by (intro one_fg_update_other) simp_all
    qed
    ultimately show ?thesis using added Add by simp
  qed
next
  case (Del p)
  show ?thesis
  proof (cases rule: deletejob_cases [of s p])
    case absent
    with inv Del show ?thesis by simp
  next
    case (deleted i js)
    have "distinct_pids js" unfolding deleted(3)
      using inv(1) by (rule distinct_pids_update_clear) (simp add: clearjob_def)
    moreover have "one_fg js" unfolding deleted(3)
      using inv(2) by (rule one_fg_update_other) (simp add: clearjob_def)
    ultimately show ?thesis using deleted Del by simp
  qed
qed

lemma table_inv_run:
  "distinct_pids (jobs s) \<Longrightarrow> one_fg (jobs s) \<Longrightarrow> fresh_adds s ops \<Longrightarrow>
     distinct_pids (jobs (run_jops s ops)) \<and> one_fg (jobs (run_jops s ops))"
proof (induction ops arbitrary: s)
  case Nil
  then show ?case by (simp add: run_jops_def)
next
  case (Cons x ops)
  from table_inv_step [OF Cons.prems]
  have step: "distinct_pids (jobs (apply_jop s x))" "one_fg (jobs (apply_jop s x))" by simp_all
  from Cons.prems(3) have "fresh_adds (apply_jop s x) ops" by (cases x) simp_all
  from Cons.IH [OF step this] show ?case by (simp add: run_jops_def)
qed

lemma init_jobs: "jobs (init_shell v) = replicate MAXJOBS empty_job"
  by (simp add: init_shell_def initjobs_def clearjob_def empty_job_def)

lemma init_inv: "distinct_pids (jobs (init_shell v))" "one_fg (jobs (init_shell v))"
  by (simp_all add: init_jobs distinct_pids_def one_fg_def empty_job_def)

lemma foldl_maxjid:
  "foldl (\<lambda>m j. if jid j > m then jid j else m) m js
     = max m (foldl (\<lambda>m j. if jid j > m then jid j else m) 0 js)" if "0 \<le> m"
  using that
proof (induction js arbitrary: m)
  case Nil
  then show ?case by simp
next
  case (Cons j js)
  from Cons.IH [of "jid j"] Cons.IH [of m] Cons.prems show ?case
    by (auto simp: max_def)
qed

lemma foldl_maxjid_ge: "m \<le> foldl (\<lambda>m j. if jid j > m then jid j else m) m js"
proof (induction js arbitrary: m)
  case Nil
  then show ?case by simp
next
  case (Cons j js)
  from Cons.IH [of "jid j"] Cons.IH [of m] show ?case by auto
qed

lemma maxjid_Nil: "maxjid [] = 0"
  by (simp add: maxjid_def)

lemma maxjid_Cons: "maxjid (j # js) = max (max 0 (jid j)) (maxjid js)"
  using foldl_maxjid [of "jid j" js] foldl_maxjid_ge [of 0 js]
  by (auto simp: maxjid_def max_def)

lemma maxjid_nonneg: "0 \<le> maxjid js"
  by (induction js) (simp_all add: maxjid_Nil maxjid_Cons)

lemma maxjid_update:
  "i < length js \<Longrightarrow> jid (js ! i) \<le> 0 \<Longrightarrow> maxjid (js[i := x]) = max (maxjid js) (jid x)"
proof (induction js arbitrary: i)
  case Nil
  then show ?case by simp
next
  case (Cons j js)
  show ?case
  proof (cases i)
    case 0
    with Cons.prems maxjid_nonneg [of js] show ?thesis
      by (simp add: maxjid_Cons max_def)
  next
    case (Suc n)
    with Cons.prems Cons.IH [of n] maxjid_nonneg [of js] show ?thesis
      by (simp add: maxjid_Cons max_def)
  qed
qed

lemma cleared_slots_update:
  "cleared_slots js \<Longrightarrow> pid x = 0 \<longrightarrow> x = empty_job \<Longrightarrow> cleared_slots (js[i := x])"
  using set_update_subset_insert [of js i x] by (auto simp: cleared_slots_def)

lemma counter_inv_step: "counter_inv s \<Longrightarrow> counter_inv (apply_jop s x)"
proof (cases x)
  case (Add p st c)
  assume inv: "counter_inv s"
  show ?thesis
  proof (cases rule: addjob_cases [of p s st c])
    case bad_pid
    with inv Add show ?thesis by simp
  next
    case full
    with inv Add show ?thesis by (simp add: counter_inv_def)
  next
    case (added i s')
    let ?j = "\<lparr>pid = p, jid = nextjid s, state = st, cmdline = c\<rparr>"
    from added(2) have i: "i < length (jobs s)" "pid (jobs s ! i) = 0"
      by (simp_all add: scan_Some_iff)
    with inv have "jobs s ! i = empty_job"
      by (auto simp: counter_inv_def cleared_slots_def)
    then have "jid (jobs s ! i) \<le> 0" by (simp add: empty_job_def)
    with i have mx: "maxjid (jobs s') = max (maxjid (jobs s)) (nextjid s)"
      using added(4) by (simp add: maxjid_update)
    have "cleared_slots (jobs s')" unfolding added(4)
      using inv added(1) by (intro cleared_slots_update) (simp_all add: counter_inv_def)
    moreover have "maxjid (jobs s') < int MAXJOBS \<longrightarrow> nextjid s' = maxjid (jobs s') + 1"
      using inv mx added(5) by (auto simp: counter_inv_def max_def split: if_splits)
    ultimately show ?thesis using added(3) Add by (simp add: counter_inv_def)
  qed
next
  case (Del p)
  assume inv: "counter_inv s"
  show ?thesis
  proof (cases rule: deletejob_cases [of s p])
    case absent
    with inv Del show ?thesis by simp
  next
    case (deleted i js)
    have "cleared_slots js" unfolding deleted(3)
      using inv by (intro cleared_slots_update) (simp_all add: counter_inv_def clearjob_empty)
    with deleted(4) Del show ?thesis by (simp add: counter_inv_def)
  qed
qed

lemma counter_inv_run: "counter_inv s \<Longrightarrow> counter_inv (run_jops s ops)"
  unfolding run_jops_def
  by (induction ops arbitrary: s) (simp_all add: counter_inv_step)

lemma counter_inv_init: "counter_inv (init_shell v)"
proof -
  have "nextjid (init_shell v) = 1" by (simp add: init_shell_def)
  moreover have "maxjid (replicate MAXJOBS empty_job) = 0"
    by (simp add: maxjid_def MAXJOBS_def empty_job_def eval_nat_numeral)
  ultimately show ?thesis
    by (simp add: counter_inv_def init_jobs cleared_slots_def)
qed

lemma counter_inv_reachable: "counter_inv (run_jops (init_shell v) ops)"
  by (rule counter_inv_run [OF counter_inv_init])

section \<open>The claims about the job table\<close>

text \<open>
  Claim C8. \<^verbatim>\<open>addjob\<close> returns 0 and changes nothing when \<open>pid < 1\<close>. When \<open>pid \<ge> 1\<close> and no
  slot has pid 0, it returns 0, prints the line \<^verbatim>\<open>Tried to create too many jobs\<close> and changes
  nothing else. When \<open>pid \<ge> 1\<close> and some slot has pid 0, it returns 1 and writes the new job
  into the first such slot in slot order, leaving the other slots as they were.
\<close>

theorem addjob_fails_or_fills_first_free_slot:
  "(p < 1 \<longrightarrow> addjob s p st c = (s, 0))
   \<and> (1 \<le> p \<and> (\<forall>j\<in>set (jobs s). pid j \<noteq> 0) \<longrightarrow>
        addjob s p st c = (s\<lparr>out := out s @ ''Tried to create too many jobs'' @ [newline]\<rparr>, 0))
   \<and> (1 \<le> p \<and> (\<exists>j\<in>set (jobs s). pid j = 0) \<longrightarrow>
        (\<exists>i<length (jobs s). pid (jobs s ! i) = 0 \<and> (\<forall>k<i. pid (jobs s ! k) \<noteq> 0)
           \<and> snd (addjob s p st c) = 1
           \<and> jobs (fst (addjob s p st c))
               = (jobs s)[i := \<lparr>pid = p, jid = nextjid s, state = st, cmdline = c\<rparr>]))"
proof (cases rule: addjob_cases [of p s st c])
  case bad_pid
  then show ?thesis by simp
next
  case full
  then show ?thesis by auto
next
  case (added i s')
  from added(2) have "i < length (jobs s)" "pid (jobs s ! i) = 0" "\<forall>k<i. pid (jobs s ! k) \<noteq> 0"
    by (simp_all add: scan_Some_iff)
  with added show ?thesis by auto
qed

theorem addjob_witness:
  "addjob (init_shell False) 0 BG ''x'' = (init_shell False, 0)
   \<and> addjob (run_jops (init_shell False) (map (\<lambda>p. Add p BG ''x'') [1..16])) 17 BG ''y''
       = ((run_jops (init_shell False) (map (\<lambda>p. Add p BG ''x'') [1..16]))
            \<lparr>out := ''Tried to create too many jobs'' @ [newline]\<rparr>, 0)
   \<and> snd (addjob (run_jops (init_shell False) [Add 5 BG ''x'', Add 6 BG ''x'', Del 5]) 7 FG ''y'') = 1
   \<and> jobs (fst (addjob (run_jops (init_shell False) [Add 5 BG ''x'', Add 6 BG ''x'', Del 5]) 7 FG ''y''))
       = (jobs (run_jops (init_shell False) [Add 5 BG ''x'', Add 6 BG ''x'', Del 5]))
           [0 := \<lparr>pid = 7, jid = 3, state = FG, cmdline = ''y''\<rparr>]"
proof -
  let ?full = "run_jops (init_shell False) (map (\<lambda>p. Add p BG ''x'') [1..16])"
  let ?s = "run_jops (init_shell False) [Add 5 BG ''x'', Add 6 BG ''x'', Del 5]"
  have full: "\<forall>j\<in>set (jobs ?full). pid j \<noteq> 0" "out ?full = []" by code_simp+
  have free: "\<exists>j\<in>set (jobs ?s). pid j = 0" by code_simp
  have first: "pid (jobs ?s ! 0) = 0" "nextjid ?s = 3" by code_simp+
  from addjob_fails_or_fills_first_free_slot [of 0 "init_shell False" BG "''x''"]
  have a: "addjob (init_shell False) 0 BG ''x'' = (init_shell False, 0)" by simp
  from addjob_fails_or_fills_first_free_slot [of 17 ?full BG "''y''"] full
  have b: "addjob ?full 17 BG ''y'' = (?full\<lparr>out := ''Tried to create too many jobs'' @ [newline]\<rparr>, 0)"
    by simp
  from addjob_fails_or_fills_first_free_slot [of 7 ?s FG "''y''"] free
  obtain i where i: "pid (jobs ?s ! i) = 0" "\<forall>k<i. pid (jobs ?s ! k) \<noteq> 0"
    "snd (addjob ?s 7 FG ''y'') = 1"
    "jobs (fst (addjob ?s 7 FG ''y'')) = (jobs ?s)[i := \<lparr>pid = 7, jid = nextjid ?s, state = FG, cmdline = ''y''\<rparr>]"
    by auto
  from i(2) first(1) have "i = 0" by (cases i) auto
  with i first(2) have c: "snd (addjob ?s 7 FG ''y'') = 1"
    "jobs (fst (addjob ?s 7 FG ''y'')) = (jobs ?s)[0 := \<lparr>pid = 7, jid = 3, state = FG, cmdline = ''y''\<rparr>]"
    by simp_all
  from a b c show ?thesis by simp
qed

text \<open>
  Claim C1, as stated, fails: \<^verbatim>\<open>addjob\<close> checks neither the pid nor the state against the
  table, so adding pid 5 in the foreground twice leaves two slots with pid 5, both in the
  foreground.
\<close>

theorem same_pid_twice_counterexample:
  "\<not> distinct_pids (jobs (run_jops (init_shell False) [Add 5 FG ''a'', Add 5 FG ''a'']))
   \<and> \<not> one_fg (jobs (run_jops (init_shell False) [Add 5 FG ''a'', Add 5 FG ''a'']))"
  by (simp add: run_jops_def init_shell_def initjobs_def clearjob_def MAXJOBS_def addjob_def
      distinct_pids_def one_fg_def eval_nat_numeral)

text \<open>
  Claim C1, amended. Starting from the initialised table, for every sequence of \<^verbatim>\<open>addjob\<close>
  and \<^verbatim>\<open>deletejob\<close> in which each add uses a pid that no slot holds, and adds a foreground
  job only while no slot is in the foreground, the table never holds two non-empty slots
  with the same pid and never two slots in the foreground.
\<close>

theorem fresh_adds_keep_pids_distinct_and_one_fg:
  "fresh_adds (init_shell v) ops \<Longrightarrow>
     distinct_pids (jobs (run_jops (init_shell v) ops))
     \<and> one_fg (jobs (run_jops (init_shell v) ops))"
  by (rule table_inv_run [OF init_inv])

theorem fresh_adds_witness:
  "fresh_adds (init_shell False) [Add 5 FG ''a'', Del 5, Add 6 FG ''b'', Add 7 BG ''c'']
   \<and> distinct_pids (jobs (run_jops (init_shell False) [Add 5 FG ''a'', Del 5, Add 6 FG ''b'', Add 7 BG ''c'']))
   \<and> one_fg (jobs (run_jops (init_shell False) [Add 5 FG ''a'', Del 5, Add 6 FG ''b'', Add 7 BG ''c'']))"
proof -
  have h: "fresh_adds (init_shell False) [Add 5 FG ''a'', Del 5, Add 6 FG ''b'', Add 7 BG ''c'']"
    by code_simp
  from fresh_adds_keep_pids_distinct_and_one_fg [OF h] h show ?thesis by simp
qed

text \<open>
  Claim C3, as stated, fails: the job id of a new job is the counter \<^verbatim>\<open>nextjid\<close>, not a value
  computed from the table. After fifteen adds, two deletes and two more adds the largest
  job id is 16 and the counter is 2: the next job gets job id 2, where the claim asks for 1.
\<close>

theorem jid_after_wrap_counterexample:
  "18 \<notin> set (map pid (jobs (run_jops (init_shell False)
        (map (\<lambda>p. Add p BG ''x'') [1..15] @ [Del 3, Del 4, Add 16 BG ''x'', Add 17 BG ''x'']))))
   \<and> maxjid (jobs (run_jops (init_shell False)
        (map (\<lambda>p. Add p BG ''x'') [1..15] @ [Del 3, Del 4, Add 16 BG ''x'', Add 17 BG ''x'']))) = 16
   \<and> snd (addjob (run_jops (init_shell False)
        (map (\<lambda>p. Add p BG ''x'') [1..15] @ [Del 3, Del 4, Add 16 BG ''x'', Add 17 BG ''x''])) 18 BG ''y'') = 1
   \<and> jobs (fst (addjob (run_jops (init_shell False)
        (map (\<lambda>p. Add p BG ''x'') [1..15] @ [Del 3, Del 4, Add 16 BG ''x'', Add 17 BG ''x''])) 18 BG ''y'')) ! 15
       = \<lparr>pid = 18, jid = 2, state = BG, cmdline = ''y''\<rparr>
   \<and> (if 1 + maxjid (jobs (run_jops (init_shell False)
        (map (\<lambda>p. Add p BG ''x'') [1..15] @ [Del 3, Del 4, Add 16 BG ''x'', Add 17 BG ''x''])))
          > int MAXJOBS then 1 else (17::int)) = 1"
  by code_simp

text \<open>
  Claim C3, amended. In every table that add and delete reach from the initialised one and
  whose largest job id is below the capacity 16, a successful \<^verbatim>\<open>addjob\<close> gives the new job
  the job id 1 + the largest job id present before the add.
\<close>

theorem addjob_jid_is_max_plus_one:
  assumes "s = run_jops (init_shell v) ops"
    and "addjob s p st c = (s', 1)"
    and "maxjid (jobs s) < int MAXJOBS"
  shows "\<exists>i. scan (\<lambda>j. pid j = 0) (jobs s) = Some i
     \<and> jobs s' = (jobs s)[i := \<lparr>pid = p, jid = 1 + maxjid (jobs s), state = st, cmdline = c\<rparr>]"
proof (cases rule: addjob_cases [of p s st c])
  case bad_pid
  with assms(2) show ?thesis by simp
next
  case full
  with assms(2) show ?thesis by simp
next
  case (added i s'')
  from counter_inv_reachable [of v ops] assms(1,3) have "nextjid s = maxjid (jobs s) + 1"
    by (simp add: counter_inv_def)
  with added assms(2) show ?thesis by (simp add: add.commute)
qed

theorem addjob_jid_witness:
  "addjob (run_jops (init_shell False) [Add 5 BG ''x'', Add 6 BG ''x'', Del 5]) 7 FG ''y''
     = (run_jops (init_shell False) [Add 5 BG ''x'', Add 6 BG ''x'', Del 5, Add 7 FG ''y''], 1)
   \<and> maxjid (jobs (run_jops (init_shell False) [Add 5 BG ''x'', Add 6 BG ''x'', Del 5])) = 2
   \<and> jobs (run_jops (init_shell False) [Add 5 BG ''x'', Add 6 BG ''x'', Del 5, Add 7 FG ''y''])
       = (jobs (run_jops (init_shell False) [Add 5 BG ''x'', Add 6 BG ''x'', Del 5]))
           [0 := \<lparr>pid = 7, jid = 3, state = FG, cmdline = ''y''\<rparr>]"
proof -
  let ?s = "run_jops (init_shell False) [Add 5 BG ''x'', Add 6 BG ''x'', Del 5]"
  let ?s' = "run_jops (init_shell False) [Add 5 BG ''x'', Add 6 BG ''x'', Del 5, Add 7 FG ''y'']"
  have add: "addjob ?s 7 FG ''y'' = (?s', 1)" by code_simp
  have mx: "maxjid (jobs ?s) = 2" by code_simp
  then have small: "maxjid (jobs ?s) < int MAXJOBS" by (simp add: MAXJOBS_def)
  have sc: "scan (\<lambda>j. pid j = 0) (jobs ?s) = Some 0" by code_simp
  from addjob_jid_is_max_plus_one [OF refl add small] sc mx
  have "jobs ?s' = (jobs ?s)[0 := \<lparr>pid = 7, jid = 3, state = FG, cmdline = ''y''\<rparr>]" by simp
  with add mx show ?thesis by simp
qed

text \<open>
  Claim C9, as stated, fails on a full table: the add fails, the delete finds no job, and
  the counter keeps its value 1 while the largest job id is 16.
\<close>

theorem add_delete_full_table_counterexample:
  "17 \<notin> set (map pid (jobs (run_jops (init_shell False) (map (\<lambda>p. Add p BG ''x'') [1..16]))))
   \<and> jobs (fst (deletejob (fst (addjob
        (run_jops (init_shell False) (map (\<lambda>p. Add p BG ''x'') [1..16])) 17 BG ''y'')) 17))
       = jobs (run_jops (init_shell False) (map (\<lambda>p. Add p BG ''x'') [1..16]))
   \<and> nextjid (fst (deletejob (fst (addjob
        (run_jops (init_shell False) (map (\<lambda>p. Add p BG ''x'') [1..16])) 17 BG ''y'')) 17)) = 1
   \<and> maxjid (jobs (fst (deletejob (fst (addjob
        (run_jops (init_shell False) (map (\<lambda>p. Add p BG ''x'') [1..16])) 17 BG ''y'')) 17))) + 1 = 17"
  by code_simp

text \<open>
  Claim C9, amended. In every table that add and delete reach from the initialised one,
  for every pid that no slot holds, an \<^verbatim>\<open>addjob\<close> that succeeds followed by \<^verbatim>\<open>deletejob\<close> of
  the same pid gives back the table as it was before the add, slot by slot, and leaves the
  counter at 1 + the largest job id of the jobs that remain.
\<close>

theorem add_then_delete_restores_table:
  assumes "s = run_jops (init_shell v) ops"
    and "p \<notin> set (map pid (jobs s))"
    and "addjob s p st c = (s1, 1)"
  shows "\<exists>s2. deletejob s1 p = (s2, 1) \<and> jobs s2 = jobs s
     \<and> nextjid s2 = maxjid (jobs s2) + 1"
proof (cases rule: addjob_cases [of p s st c])
  case bad_pid
  with assms(3) show ?thesis by simp
next
  case full
  with assms(3) show ?thesis by simp
next
  case (added i s')
  let ?j = "\<lparr>pid = p, jid = nextjid s, state = st, cmdline = c\<rparr>"
  from added(3) assms(3) have s1: "s1 = s'" by simp
  from added(2) have i: "i < length (jobs s)" "pid (jobs s ! i) = 0"
    by (simp_all add: scan_Some_iff)
  from counter_inv_reachable [of v ops] assms(1) i have old: "jobs s ! i = empty_job"
    by (auto simp: counter_inv_def cleared_slots_def)
  have "scan (\<lambda>j. pid j = p) (jobs s1) = Some i"
    unfolding scan_Some_iff s1 added(4) using i assms(2)
    by (auto simp: nth_list_update)
  moreover have "(jobs s1)[i := clearjob (jobs s1 ! i)] = jobs s"
    unfolding s1 added(4) using old i by (simp add: clearjob_empty list_update_same_conv)
  ultimately show ?thesis using added(1) by (simp add: deletejob_def Let_def)
qed

theorem add_then_delete_witness:
  "7 \<notin> set (map pid (jobs (run_jops (init_shell False) [Add 5 BG ''x'', Add 6 BG ''x'', Del 5])))
   \<and> addjob (run_jops (init_shell False) [Add 5 BG ''x'', Add 6 BG ''x'', Del 5]) 7 FG ''y''
       = (run_jops (init_shell False) [Add 5 BG ''x'', Add 6 BG ''x'', Del 5, Add 7 FG ''y''], 1)
   \<and> snd (deletejob (run_jops (init_shell False) [Add 5 BG ''x'', Add 6 BG ''x'', Del 5, Add 7 FG ''y'']) 7) = 1
   \<and> jobs (fst (deletejob (run_jops (init_shell False) [Add 5 BG ''x'', Add 6 BG ''x'', Del 5, Add 7 FG ''y'']) 7))
       = jobs (run_jops (init_shell False) [Add 5 BG ''x'', Add 6 BG ''x'', Del 5])
   \<and> nextjid (fst (deletejob (run_jops (init_shell False) [Add 5 BG ''x'', Add 6 BG ''x'', Del 5, Add 7 FG ''y'']) 7))
       = maxjid (jobs (fst (deletejob (run_jops (init_shell False) [Add 5 BG ''x'', Add 6 BG ''x'', Del 5, Add 7 FG ''y'']) 7))) + 1"
proof -
  let ?s = "run_jops (init_shell False) [Add 5 BG ''x'', Add 6 BG ''x'', Del 5]"
  let ?s' = "run_jops (init_shell False) [Add 5 BG ''x'', Add 6 BG ''x'', Del 5, Add 7 FG ''y'']"
  have fresh: "7 \<notin> set (map pid (jobs ?s))" by code_simp
  have add: "addjob ?s 7 FG ''y'' = (?s', 1)" by code_simp
  from add_then_delete_restores_table [OF refl fresh add] fresh add
  show ?thesis by auto
qed

section \<open>Properties of the commands\<close>

subsection \<open>Evaluation on concrete input and the steps of \<^verbatim>\<open>do_bgfg\<close>\<close>

lemmas atoi_simps = bgfg_arg_def atoi_def strtol_def to_int_def atoi_value_def count_digits.simps
  isspace_def isdigit_def digit_val_def LONG_MAX_def LONG_MIN_def Let_def

lemmas show_simps = show_int_def digit_char_def

lemma getjobpid_init: "getjobpid (jobs (init_shell v)) p = None"
  by (simp add: getjobpid_def init_jobs scan_None_iff empty_job_def)

lemma getjobjid_init: "getjobjid (jobs (init_shell v)) i = None"
  by (simp add: getjobjid_def init_jobs scan_None_iff empty_job_def)

lemma after_simps [simp]: "after (Inl a) f = Some (Inl a)" "after (Inr s) f = f s"
  by (simp_all add: after_def)

lemma deliver_idle: "reaped env n = [] \<Longrightarrow> deliver env n s = Inr s"
  by (simp add: deliver_def)

lemma do_bgfg_with_arg:
  assumes "cmd = ''fg'' \<or> cmd = ''bg''"
  shows "do_bgfg env s (cmd # a # rest) =
     (case bgfg_arg a of
        (ok, flag, result) \<Rightarrow>
          if \<not> ok
          then Some (Inr (printf s (cmd @ '': argument must be PID or %jobid'' @ [newline])))
          else if flag = 0
          then (case getjobpid (jobs s) result of
                  Some i \<Rightarrow>
                    after (deliver env 0 s) (\<lambda>s0.
                      bgfg_move env 1 (printf s0 (job_found_line (jobs s0) result i))
                        cmd i result)
                | None \<Rightarrow> Some (Inr (printf s
                    (show_int result @ '' : No such process'' @ [newline] @ '' ''))))
          else (case getjobjid (jobs s) result of
                  Some i \<Rightarrow>
                    after (deliver env 0 s) (\<lambda>s0. bgfg_move env 1 s0 cmd i (pid (jobs s0 ! i)))
                | None \<Rightarrow> Some (Inr (printf s
                    (''%'' @ show_int result @ '' : No such Job'' @ [newline] @ '' '')))))"
  using assms by (auto simp: do_bgfg_def)

subsection \<open>What the handler keeps\<close>











subsection \<open>The foreground wait\<close>



subsection \<open>When the foreground wait returns\<close>










text \<open>\<^verbatim>\<open>bgfg_move\<close> from point 1, the points written out.\<close>

lemma bgfg_move_1:
  "bgfg_move env 1 s cmd i p =
     after (deliver env 1 s) (\<lambda>s1.
       if state (jobs s1 ! i) = ST \<and> cmd = ''bg''
       then after (deliver env 2 s1) (\<lambda>s2.
              after (deliver env 3 (set_state s2 i BG)) (\<lambda>s3.
                Some (Inr (kill s3 (- p) SIGCONT))))
       else after (deliver env 2 s1) (\<lambda>s2.
         if state (jobs s2 ! i) = ST \<and> cmd = ''fg''
         then after (deliver env 3 s2) (\<lambda>s3.
                after (deliver env 4 (set_state s3 i FG)) (\<lambda>s4.
                  waitfg env 5 (kill s4 (- p) SIGCONT) p))
         else after (deliver env 3 s2) (\<lambda>s3.
           if state (jobs s3 ! i) = BG \<and> cmd = ''fg''
           then after (deliver env 4 s3) (\<lambda>s4. waitfg env 5 (set_state s4 i FG) p)
           else Some (Inr s3))))"
  by (simp add: bgfg_move_def eval_nat_numeral cong: if_cong)

text \<open>
  The handler between the test and the assignment of \<^verbatim>\<open>do_bgfg\<close>: the stopped job of pid 100
  is killed and reaped at point 3, after \<^verbatim>\<open>fg %1\<close> has read its state. The assignment then
  writes the foreground state into the cleared slot, \<^verbatim>\<open>SIGCONT\<close> goes to a process group that
  is gone, and \<^verbatim>\<open>waitfg\<close> returns at once, since pid 100 has no entry.
\<close>

lemma fg_race_with_the_handler:
  "do_bgfg (calm_env\<lparr>reaped := (\<lambda>n. if n = 3 then [(100, WSIGNALED 9)] else [])\<rparr>)
       (set_state (fst (addjob (init_shell False) 100 BG ''sleep'')) 0 ST) [''fg'', ''%1'']
     = Some (Inr ((init_shell False)
          \<lparr>jobs := (jobs (init_shell False))[0 := empty_job\<lparr>state := FG\<rparr>],
            out := ''Job [1] (100) terminated by signal 2'',
            sent := [(- 100, SIGCONT)]\<rparr>))"
proof -
  let ?s = "set_state (fst (addjob (init_shell False) 100 BG ''sleep'')) 0 ST"
  let ?env = "calm_env\<lparr>reaped := (\<lambda>n. if n = 3 then [(100, WSIGNALED 9)] else [])\<rparr>"
  let ?s3 = "(init_shell False)\<lparr>out := ''Job [1] (100) terminated by signal 2''\<rparr>"
  let ?s' = "(init_shell False)
          \<lparr>jobs := (jobs (init_shell False))[0 := empty_job\<lparr>state := FG\<rparr>],
            out := ''Job [1] (100) terminated by signal 2'',
            sent := [(- 100, SIGCONT)]\<rparr>"
  have arg: "bgfg_arg ''%1'' = (True, 1, 1)" by (simp add: atoi_simps)
  have tbl: "getjobjid (jobs ?s) 1 = Some 0" "state (jobs ?s ! 0) = 3" "pid (jobs ?s ! 0) = 100"
    by code_simp+
  have idle: "deliver ?env n s = Inr s" if "n \<noteq> 3" for n s
    using that by (simp add: deliver_idle)
  have reaped: "deliver ?env 3 ?s = Inr ?s3"
    unfolding deliver_def by code_simp
  have last: "kill (set_state ?s3 0 FG) (- 100) SIGCONT = ?s'" by code_simp
  have gone: "getjobpid (jobs ?s') 100 = None" by code_simp
  have "bgfg_move ?env 1 ?s ''fg'' 0 100 = waitfg ?env 5 ?s' 100"
    unfolding bgfg_move_1 using tbl(2) reaped last by (simp add: idle)
  also have "\<dots> = Some (Inr ?s')" using gone by (simp add: waitfg_def idle)
  finally show ?thesis using tbl(1,3) by (simp add: do_bgfg_with_arg arg idle del: One_nat_def)
qed

section \<open>The claims about the signal handler and the built-in commands\<close>

text \<open>
  Claim C2 does not hold of the code: the handler prints the literals 2 and 20 in place of
  the signal number of the status. For a background job with pid 100 and job id 1, a child
  killed by signal 9 is reported as terminated by signal 2 (with no newline), and a child
  stopped by signal 19 as stopped by signal 20. The job is deleted in the first case and its
  state set to stopped in the second, as the claim says.
\<close>

theorem sigchld_handler_prints_fixed_signal_numbers:
  "sigchld_handler (fst (addjob (init_shell False) 100 BG ''sleep'')) [(100, WSIGNALED 9)]
     = Inr ((init_shell False)\<lparr>out := ''Job [1] (100) terminated by signal 2''\<rparr>)
   \<and> sigchld_handler (fst (addjob (init_shell False) 100 BG ''sleep'')) [(100, WSTOPPED 19)]
     = Inr ((set_state (fst (addjob (init_shell False) 100 BG ''sleep'')) 0 ST)
              \<lparr>out := ''Job [1] (100) stopped by signal 20'' @ [newline]\<rparr>)"
  by code_simp



text \<open>
  Claim C5 does not hold of the code: the check compares the number of decimal digits of
  \<^verbatim>\<open>atoi\<close>'s value with the length of the argument after the \<^verbatim>\<open>%\<close>, so a digit string with a
  leading zero does not pass, although each of its characters is a decimal digit. With a
  stopped job of pid 7 and job id 1 in the table, \<^verbatim>\<open>bg 007\<close> and \<^verbatim>\<open>bg %01\<close> are answered with
  \<^verbatim>\<open>bg: argument must be PID or %jobid\<close> and the job stays stopped, where \<^verbatim>\<open>bg 7\<close> and
  \<^verbatim>\<open>bg %1\<close> set the job to the background state and send it \<^verbatim>\<open>SIGCONT\<close>.
\<close>

theorem bg_leading_zero_is_refused:
  "list_all isdigit ''007''
   \<and> do_bgfg calm_env (set_state (fst (addjob (init_shell False) 7 BG ''sleep'')) 0 ST) [''bg'', ''007'']
     = Some (Inr ((set_state (fst (addjob (init_shell False) 7 BG ''sleep'')) 0 ST)
                    \<lparr>out := ''bg: argument must be PID or %jobid'' @ [newline]\<rparr>))
   \<and> do_bgfg calm_env (set_state (fst (addjob (init_shell False) 7 BG ''sleep'')) 0 ST) [''bg'', ''7'']
     = Some (Inr ((set_state (fst (addjob (init_shell False) 7 BG ''sleep'')) 0 BG)
                    \<lparr>out := ''JOB [1] (7) 3'' @ [newline], sent := [(- 7, SIGCONT)]\<rparr>))
   \<and> list_all isdigit ''01''
   \<and> do_bgfg calm_env (set_state (fst (addjob (init_shell False) 7 BG ''sleep'')) 0 ST) [''bg'', ''%01'']
     = Some (Inr ((set_state (fst (addjob (init_shell False) 7 BG ''sleep'')) 0 ST)
                    \<lparr>out := ''bg: argument must be PID or %jobid'' @ [newline]\<rparr>))
   \<and> do_bgfg calm_env (set_state (fst (addjob (init_shell False) 7 BG ''sleep'')) 0 ST) [''bg'', ''%1'']
     = Some (Inr ((set_state (fst (addjob (init_shell False) 7 BG ''sleep'')) 0 BG)
                    \<lparr>sent := [(- 7, SIGCONT)]\<rparr>))"
proof -
  let ?s = "set_state (fst (addjob (init_shell False) 7 BG ''sleep'')) 0 ST"
  let ?b = "set_state (fst (addjob (init_shell False) 7 BG ''sleep'')) 0 BG"
  have args: "bgfg_arg ''007'' = (False, 0, 7)" "bgfg_arg ''7'' = (True, 0, 7)"
    "bgfg_arg ''%01'' = (False, 1, 1)" "bgfg_arg ''%1'' = (True, 1, 1)"
    by (simp_all add: atoi_simps)
  have shown: "show_int 1 = ''1''" "show_int 7 = ''7''" "show_int 3 = ''3''"
    by (simp_all add: show_simps)
  have tbl: "getjobpid (jobs ?s) 7 = Some 0" "getjobjid (jobs ?s) 1 = Some 0"
    "pid2jid (jobs ?s) 7 = 1" "state (jobs ?s ! 0) = 3" "pid (jobs ?s ! 0) = 7"
    "out ?s = []" "sent ?s = []"
    by code_simp+
  have idle: "deliver calm_env n s = Inr s" for n s
    by (simp add: deliver_idle calm_env_def)
  have digits: "list_all isdigit ''007''" "list_all isdigit ''01''" by (simp_all add: isdigit_def)
  have refused: "do_bgfg calm_env ?s [''bg'', ''007'']
      = Some (Inr (printf ?s (''bg: argument must be PID or %jobid'' @ [newline])))"
    "do_bgfg calm_env ?s [''bg'', ''%01'']
      = Some (Inr (printf ?s (''bg: argument must be PID or %jobid'' @ [newline])))"
    by (simp_all add: do_bgfg_with_arg args)
  have a: "do_bgfg calm_env ?s [''bg'', ''007'']
     = Some (Inr (?s\<lparr>out := ''bg: argument must be PID or %jobid'' @ [newline]\<rparr>))"
    and c: "do_bgfg calm_env ?s [''bg'', ''%01'']
     = Some (Inr (?s\<lparr>out := ''bg: argument must be PID or %jobid'' @ [newline]\<rparr>))"
    using refused tbl(6) by (simp_all add: printf_def)
  have moved: "bgfg_move calm_env 1 s ''bg'' 0 7
      = Some (Inr (kill (set_state s 0 BG) (- 7) SIGCONT))" if "state (jobs s ! 0) = 3" for s
    unfolding bgfg_move_1 using that by (simp add: idle)
  have "do_bgfg calm_env ?s [''bg'', ''7'']
     = Some (Inr (kill (set_state (printf ?s (''JOB [1] (7) 3'' @ [newline])) 0 BG) (- 7) SIGCONT))"
    using tbl(1,3,4) by (simp add: do_bgfg_with_arg args idle job_found_line_def shown moved printf_def
        del: One_nat_def)
  also have "kill (set_state (printf ?s (''JOB [1] (7) 3'' @ [newline])) 0 BG) (- 7) SIGCONT
     = ?b\<lparr>out := ''JOB [1] (7) 3'' @ [newline], sent := [(- 7, SIGCONT)]\<rparr>"
    by code_simp
  finally have b: "do_bgfg calm_env ?s [''bg'', ''7'']
     = Some (Inr (?b\<lparr>out := ''JOB [1] (7) 3'' @ [newline], sent := [(- 7, SIGCONT)]\<rparr>))" .
  have "do_bgfg calm_env ?s [''bg'', ''%1'']
     = Some (Inr (kill (set_state ?s 0 BG) (- 7) SIGCONT))"
    using tbl(2,4,5) by (simp add: do_bgfg_with_arg args idle moved del: One_nat_def)
  also have "kill (set_state ?s 0 BG) (- 7) SIGCONT = ?b\<lparr>sent := [(- 7, SIGCONT)]\<rparr>"
    by code_simp
  finally have d: "do_bgfg calm_env ?s [''bg'', ''%1'']
     = Some (Inr (?b\<lparr>sent := [(- 7, SIGCONT)]\<rparr>))" .
  from digits a b c d show ?thesis by (intro conjI)
qed

text \<open>
  Claim C6, as stated, fails: the two messages have a blank before the colon, and a blank
  follows the newline. \<^verbatim>\<open>bg 99999\<close> on the empty table prints \<^verbatim>\<open>99999 : No such process\<close>.
\<close>

theorem unknown_pid_counterexample:
  "do_bgfg calm_env (init_shell False) [''bg'', ''99999'']
     = Some (Inr ((init_shell False)\<lparr>out := ''99999 : No such process'' @ [newline] @ '' ''\<rparr>))
   \<and> do_bgfg calm_env (init_shell False) [''bg'', ''99999'']
     \<noteq> Some (Inr ((init_shell False)\<lparr>out := ''99999: No such process'' @ [newline]\<rparr>))
   \<and> do_bgfg calm_env (init_shell False) [''bg'', ''99999'']
     \<noteq> Some (Inr ((init_shell False)\<lparr>out := ''99999: No such process''\<rparr>))"
proof -
  have arg: "bgfg_arg ''99999'' = (True, 0, 99999)" by (simp add: atoi_simps)
  have shown: "show_int 99999 = ''99999''" by (simp add: show_simps)
  have "do_bgfg calm_env (init_shell False) [''bg'', ''99999'']
     = Some (Inr (printf (init_shell False) (''99999 : No such process'' @ [newline] @ '' '')))"
    by (simp add: do_bgfg_with_arg arg getjobpid_init shown)
  then show ?thesis by (simp add: printf_def init_shell_def)
qed

text \<open>
  Claim C6, amended. When the argument of \<^verbatim>\<open>bg\<close> or \<^verbatim>\<open>fg\<close> passes the check and names no
  job of the table, the shell prints \<^verbatim>\<open><pid> : No such process\<close> for a pid, or
  \<^verbatim>\<open>%<jid> : No such Job\<close> for a job id, followed by a newline and a blank, and nothing
  but the output changes: the job table is as before.
\<close>

theorem unknown_target_is_reported:
  assumes "cmd = ''fg'' \<or> cmd = ''bg''"
    and "bgfg_arg a = (True, flag, result)"
  shows "(flag = 0 \<and> getjobpid (jobs s) result = None \<longrightarrow>
            do_bgfg env s [cmd, a]
              = Some (Inr (s\<lparr>out := out s @ show_int result @ '' : No such process''
                                      @ [newline] @ '' ''\<rparr>)))
       \<and> (flag \<noteq> 0 \<and> getjobjid (jobs s) result = None \<longrightarrow>
            do_bgfg env s [cmd, a]
              = Some (Inr (s\<lparr>out := out s @ ''%'' @ show_int result @ '' : No such Job''
                                      @ [newline] @ '' ''\<rparr>)))"
  using assms(2) by (simp add: do_bgfg_with_arg [OF assms(1)] printf_def)

theorem unknown_target_witness:
  "do_bgfg calm_env (init_shell False) [''bg'', ''99999'']
     = Some (Inr ((init_shell False)\<lparr>out := ''99999 : No such process'' @ [newline] @ '' ''\<rparr>))
   \<and> do_bgfg calm_env (init_shell False) [''fg'', ''%3'']
     = Some (Inr ((init_shell False)\<lparr>out := ''%3 : No such Job'' @ [newline] @ '' ''\<rparr>))"
proof -
  have a: "bgfg_arg ''99999'' = (True, 0, 99999)" by (simp add: atoi_simps)
  have b: "bgfg_arg ''%3'' = (True, 1, 3)" by (simp add: atoi_simps)
  have c: "show_int 99999 = ''99999''" "show_int 3 = ''3''" "out (init_shell False) = []"
    by (simp_all add: show_simps init_shell_def)
  from unknown_target_is_reported [of "''bg''" "''99999''" 0 99999 "init_shell False" calm_env] a
    unknown_target_is_reported [of "''fg''" "''%3''" 1 3 "init_shell False" calm_env] b c
    getjobpid_init [of False 99999] getjobjid_init [of False 3]
  show ?thesis by simp
qed

text \<open>
  Claim C7. \<^verbatim>\<open>quit\<close> without argument: if some slot is in the stopped state, the shell
  prints \<^verbatim>\<open>there are stopped jobs\<close>, returns to the read loop and changes nothing but the
  output; if no slot is stopped, it exits with status 0.
\<close>

theorem quit_refuses_while_a_job_is_stopped:
  "((\<exists>j\<in>set (jobs s). state j = ST) \<longrightarrow>
      builtin_cmd env s [''quit'']
        = Some (Inr (s\<lparr>out := out s @ ''there are stopped jobs'' @ [newline]\<rparr>, 1)))
   \<and> ((\<forall>j\<in>set (jobs s). state j \<noteq> ST) \<longrightarrow>
      builtin_cmd env s [''quit''] = Some (Inl (Exit 0 s)))"
proof (cases "scan (\<lambda>j. state j = 3) (jobs s)")
  case None
  then have "\<forall>j\<in>set (jobs s). state j \<noteq> 3" by (simp add: scan_None_iff)
  with None show ?thesis by (auto simp: builtin_cmd_def)
next
  case (Some i)
  then have "\<exists>j\<in>set (jobs s). state j = 3" by (auto simp: scan_Some_iff)
  with Some show ?thesis by (auto simp: builtin_cmd_def printf_def)
qed

theorem quit_witness:
  "builtin_cmd calm_env (set_state (fst (addjob (init_shell False) 100 BG ''sleep'')) 0 ST) [''quit'']
     = Some (Inr ((set_state (fst (addjob (init_shell False) 100 BG ''sleep'')) 0 ST)
                    \<lparr>out := ''there are stopped jobs'' @ [newline]\<rparr>, 1))
   \<and> builtin_cmd calm_env (fst (addjob (init_shell False) 100 BG ''sleep'')) [''quit'']
     = Some (Inl (Exit 0 (fst (addjob (init_shell False) 100 BG ''sleep''))))"
proof -
  let ?bg = "fst (addjob (init_shell False) 100 BG ''sleep'')"
  let ?st = "set_state ?bg 0 ST"
  have a: "\<exists>j\<in>set (jobs ?st). state j = ST" "out ?st = []" by code_simp+
  have b: "\<forall>j\<in>set (jobs ?bg). state j \<noteq> ST" by code_simp
  from quit_refuses_while_a_job_is_stopped [of ?st calm_env] a
    quit_refuses_while_a_job_is_stopped [of ?bg calm_env] b
  show ?thesis by simp
qed




end
